theory Spec2Isabelle
  imports Complex_Main "HOL-Library.Multiset" "HOL-Library.Product_Lexorder"
begin

section \<open>The attempt lifecycle of backend/quiz.py\<close>

text \<open>
  The embedding covers the four functions of \<^verbatim>\<open>backend/quiz.py\<close> that carry the attempt
  lifecycle: \<^verbatim>\<open>report_violation\<close>, \<^verbatim>\<open>submit_quiz\<close>, \<^verbatim>\<open>compute_rank\<close> and
  \<^verbatim>\<open>leaderboard\<close>. The MongoDB collection \<^verbatim>\<open>quiz_attempts\<close> is a list of documents in
  insertion order; every function takes the collection and, when it writes, returns the new
  one. \<^verbatim>\<open>datetime.utcnow().isoformat()\<close> is the parameter \<open>now\<close>, and the standard
  library's \<^verbatim>\<open>datetime.fromisoformat\<close> is the parameter \<open>fromisoformat\<close>.
\<close>

subsection \<open>Documents\<close>

text \<open>
  An attempt document. The two key fields are written by every insert. A field the code reads
  with \<^verbatim>\<open>.get\<close> or inside \<^verbatim>\<open>try\<close> is optional: \<open>None\<close> is a key that is not set
  (for the two timestamps also the value \<^verbatim>\<open>None\<close> that the initial insert stores).
  \<^verbatim>\<open>violations\<close> is optional because the insert of \<^verbatim>\<open>submit_quiz\<close> does not write it.
\<close>

record attempt =
  student_university_number :: string
  quiz_id :: string
  answers :: "string \<rightharpoonup> string"
  score :: "int option"
  violation_count :: "int option"
  violations :: "string list option"
  status :: "string option"
  started_at :: "string option"
  submitted_at :: "string option"

text \<open>A question document: \<open>qid\<close> is \<^verbatim>\<open>str(q["_id"])\<close>, \<open>q_quiz_id\<close> its \<^verbatim>\<open>quiz_id\<close>.\<close>

record question =
  qid :: string
  q_quiz_id :: string
  correct_option :: string

text \<open>The request body \<^verbatim>\<open>QuizSubmit\<close> of models.py (fields prefixed \<open>p_\<close>).\<close>

record QuizSubmit =
  p_answers :: "string \<rightharpoonup> string"
  p_started_at :: string
  p_force_fail :: "bool option"

text \<open>The two JSON replies (fields prefixed \<open>v_\<close> and \<open>r_\<close>).\<close>

record violation_reply =
  v_violation_count :: int
  v_status :: string

record submit_reply =
  r_score :: int
  r_status :: string
  r_violation_count :: int
  r_rank :: int
  r_submitted_at :: string

text \<open>
  What the handlers raise: \<^verbatim>\<open>HTTPException(status_code, detail)\<close>, and the \<^verbatim>\<open>KeyError\<close>
  of indexing a document at a key it does not have.
\<close>

datatype error = HTTPException nat string | KeyError string

subsection \<open>Collection access\<close>

text \<open>\<^verbatim>\<open>d.get(key, default)\<close> on an optional field.\<close>

definition get_or :: "'a option \<Rightarrow> 'a \<Rightarrow> 'a" where
  "get_or v d = (case v of None \<Rightarrow> d | Some x \<Rightarrow> x)"

text \<open>
  \<^verbatim>\<open>find_one(filter)\<close>: the first document that matches, with its position. MongoDB gives
  every document a unique \<^verbatim>\<open>_id\<close>, so the later \<^verbatim>\<open>update_one({"_id": doc["_id"]}, ...)\<close>
  changes exactly the document at that position.
\<close>

fun find_one :: "('a \<Rightarrow> bool) \<Rightarrow> 'a list \<Rightarrow> (nat \<times> 'a) option" where
  "find_one P [] = None"
| "find_one P (x # xs) =
     (if P x then Some (0, x) else map_option (\<lambda>(i, y). (Suc i, y)) (find_one P xs))"

text \<open>The filter \<^verbatim>\<open>{"student_university_number": univ_nr, "quiz_id": quiz_id}\<close>.\<close>

definition by_key :: "string \<Rightarrow> string \<Rightarrow> attempt \<Rightarrow> bool" where
  "by_key univ_nr quiz a \<longleftrightarrow> student_university_number a = univ_nr \<and> quiz_id a = quiz"

text \<open>\<^verbatim>\<open>status in ("PASSED", "FAILED")\<close>, also the \<^verbatim>\<open>$in\<close> of the two ranking queries.\<close>

definition is_terminal :: "attempt \<Rightarrow> bool" where
  "is_terminal a \<longleftrightarrow> status a \<in> {Some ''PASSED'', Some ''FAILED''}"

text \<open>The filter \<^verbatim>\<open>{"quiz_id": quiz_id, "status": {"$in": ["PASSED", "FAILED"]}}\<close>.\<close>

definition terminal_of :: "string \<Rightarrow> attempt \<Rightarrow> bool" where
  "terminal_of quiz a \<longleftrightarrow> quiz_id a = quiz \<and> is_terminal a"

subsection \<open>Violations\<close>

text \<open>
  \<^verbatim>\<open>report_violation\<close>. The \<^verbatim>\<open>$push\<close> creates the array when the field is not set. The
  reply reads \<^verbatim>\<open>updated["status"]\<close> by index, which raises \<^verbatim>\<open>KeyError\<close> after the update
  when the document has no status.
\<close>

definition report_violation ::
  "string \<Rightarrow> string \<Rightarrow> string \<Rightarrow> string \<Rightarrow> attempt list \<Rightarrow> (error + violation_reply) \<times> attempt list"
where
  "report_violation now quiz univ_nr violation_type col =
    (let attempt = find_one (by_key univ_nr quiz) col in
     if violation_type = ''__init__'' then
       (Inr \<lparr>v_violation_count = 0, v_status = ''IN_PROGRESS''\<rparr>,
        (case attempt of
           None \<Rightarrow> col @ [\<lparr>student_university_number = univ_nr, quiz_id = quiz,
                            answers = Map.empty, score = Some 0, violation_count = Some 0,
                            violations = Some [], status = Some ''IN_PROGRESS'',
                            started_at = Some now, submitted_at = None\<rparr>]
         | Some _ \<Rightarrow> col))
     else
       (case attempt of
          None \<Rightarrow> (Inl (HTTPException 404 ''No active attempt found''), col)
        | Some (i, a) \<Rightarrow>
            if status a \<notin> {Some ''IN_PROGRESS'', None}
            then (Inl (HTTPException 404 ''No active attempt found''), col)
            else
              (let new_count = get_or (violation_count a) 0 + 1;
                   pushed = a\<lparr>violation_count := Some new_count,
                              violations := Some (get_or (violations a) [] @ [violation_type])\<rparr>;
                   updated =
                     (if violation_type = ''tab_switch'' \<or> new_count > 1
                      then pushed\<lparr>status := Some ''FAILED'', submitted_at := Some now\<rparr>
                      else pushed)
               in ((case status updated of
                      None \<Rightarrow> Inl (KeyError ''status'')
                    | Some s \<Rightarrow> Inr \<lparr>v_violation_count = new_count, v_status = s\<rparr>),
                   col[i := updated]))))"

subsection \<open>Time taken\<close>

text \<open>
  A parsed \<^verbatim>\<open>datetime\<close>, in microseconds: \<open>Naive\<close> has no UTC offset and counts wall-clock
  time, \<open>Aware\<close> has one and counts from the UTC epoch. Subtraction gives a
  \<^verbatim>\<open>timedelta\<close> (here its total in microseconds) and raises \<^verbatim>\<open>TypeError\<close> between a
  naive and an aware value.
\<close>

datatype datetime = Naive int | Aware int

fun datetime_sub :: "datetime \<Rightarrow> datetime \<Rightarrow> int option" where
  "datetime_sub (Naive x) (Naive y) = Some (x - y)"
| "datetime_sub (Aware x) (Aware y) = Some (x - y)"
| "datetime_sub (Naive x) (Aware y) = None"
| "datetime_sub (Aware x) (Naive y) = None"

text \<open>
  \<^verbatim>\<open>timedelta.seconds\<close>: a timedelta is normalised to days, seconds in \<open>0..86399\<close> and
  microseconds in \<open>0..999999\<close>; the attribute is the middle component, not the total.
\<close>

definition seconds :: "int \<Rightarrow> int" where
  "seconds td = (td mod 86400000000) div 1000000"

text \<open>
  The expression inside both \<^verbatim>\<open>try\<close> blocks,
  \<^verbatim>\<open>(fromisoformat(a["submitted_at"]) - fromisoformat(a["started_at"])).seconds\<close>;
  \<open>None\<close> is any exception (a missing key, a value that is not a string, a string that
  does not parse, a subtraction that raises).
\<close>

definition elapsed :: "(string \<Rightarrow> datetime option) \<Rightarrow> attempt \<Rightarrow> int option" where
  "elapsed fromisoformat a =
    (case submitted_at a of
       None \<Rightarrow> None
     | Some s \<Rightarrow>
        (case fromisoformat s of
           None \<Rightarrow> None
         | Some ds \<Rightarrow>
            (case started_at a of
               None \<Rightarrow> None
             | Some t \<Rightarrow>
                (case fromisoformat t of
                   None \<Rightarrow> None
                 | Some dt \<Rightarrow> map_option seconds (datetime_sub ds dt)))))"

subsection \<open>Ranking\<close>

text \<open>
  The loop of \<^verbatim>\<open>compute_rank\<close> over the terminal attempts of the quiz. Both arms of the
  \<^verbatim>\<open>try\<close> add one; \<open>a_time\<close> is computed and not used.
\<close>

fun rank_loop :: "(string \<Rightarrow> datetime option) \<Rightarrow> string \<Rightarrow> attempt list \<Rightarrow> int \<Rightarrow> int" where
  "rank_loop fromisoformat univ_nr [] rank = rank"
| "rank_loop fromisoformat univ_nr (a # as) rank =
     (if student_university_number a = univ_nr then rank_loop fromisoformat univ_nr as rank
      else if get_or (score a) 0 > 0 then
        (case elapsed fromisoformat a of
           Some a_time \<Rightarrow> rank_loop fromisoformat univ_nr as (rank + 1)
         | None \<Rightarrow> rank_loop fromisoformat univ_nr as (rank + 1))
      else rank_loop fromisoformat univ_nr as rank)"

definition compute_rank ::
  "(string \<Rightarrow> datetime option) \<Rightarrow> string \<Rightarrow> string \<Rightarrow> attempt list \<Rightarrow> int" where
  "compute_rank fromisoformat quiz univ_nr col =
     rank_loop fromisoformat univ_nr (filter (terminal_of quiz) col) 1"

text \<open>
  A leaderboard row as it is appended, and the entry after the last loop has added
  \<^verbatim>\<open>rank\<close> (fields \<open>score\<close>, \<open>status\<close>, \<open>violation_count\<close> prefixed \<open>lb_\<close>).
\<close>

record lb_row =
  name :: string
  university_number :: string
  lb_score :: int
  lb_status :: string
  lb_violation_count :: int
  time_taken_seconds :: int

record lb_entry = lb_row +
  rank :: int

text \<open>The default of \<^verbatim>\<open>a.get("status", ...)\<close>, an em dash in UTF-8.\<close>

definition dash :: string where
  "dash = [CHR 0xE2, CHR 0x80, CHR 0x94]"

text \<open>One pass of the first loop; \<open>students\<close> maps a university number to the name.\<close>

definition row_of :: "(string \<Rightarrow> datetime option) \<Rightarrow> (string \<rightharpoonup> string) \<Rightarrow> attempt \<Rightarrow> lb_row" where
  "row_of fromisoformat students a =
    (let student = students (student_university_number a);
         time_taken = (case elapsed fromisoformat a of Some t \<Rightarrow> t | None \<Rightarrow> 99999)
     in \<lparr>name = (case student of Some n \<Rightarrow> n | None \<Rightarrow> ''Unknown''),
         university_number = student_university_number a,
         lb_score = get_or (score a) 0,
         lb_status = get_or (status a) dash,
         lb_violation_count = get_or (violation_count a) 0,
         time_taken_seconds = time_taken\<rparr>)"

text \<open>The key of \<^verbatim>\<open>attempts.sort\<close>, a tuple compared lexicographically.\<close>

definition sort_key_of :: "'a lb_row_scheme \<Rightarrow> int \<times> int" where
  "sort_key_of x = (- lb_score x, time_taken_seconds x)"

definition add_rank :: "nat \<times> lb_row \<Rightarrow> lb_entry" where
  "add_rank p =
    (case p of (i, a) \<Rightarrow>
      \<lparr>name = name a, university_number = university_number a, lb_score = lb_score a,
       lb_status = lb_status a, lb_violation_count = lb_violation_count a,
       time_taken_seconds = time_taken_seconds a, rank = int i + 1\<rparr>)"

text \<open>
  \<^verbatim>\<open>list.sort\<close> is stable, and so is \<open>sort_key\<close>; on a linear order of keys a stable sort
  has one result.
\<close>

definition leaderboard ::
  "(string \<Rightarrow> datetime option) \<Rightarrow> (string \<rightharpoonup> string) \<Rightarrow> string \<Rightarrow> attempt list \<Rightarrow> lb_entry list" where
  "leaderboard fromisoformat students quiz col =
    (let attempts = map (row_of fromisoformat students) (filter (terminal_of quiz) col);
         sorted_attempts = sort_key sort_key_of attempts
     in map add_rank (enumerate 0 sorted_attempts))"

subsection \<open>Submission\<close>

text \<open>
  \<^verbatim>\<open>str.upper\<close> on the option labels, which are ASCII: the letters a to z move to A to Z
  and every other character stays.
\<close>

definition upper_char :: "char \<Rightarrow> char" where
  "upper_char c =
    (case map_of (zip ''abcdefghijklmnopqrstuvwxyz'' ''ABCDEFGHIJKLMNOPQRSTUVWXYZ'') c of
       Some u \<Rightarrow> u
     | None \<Rightarrow> c)"

definition upper :: "string \<Rightarrow> string" where
  "upper s = map upper_char s"

text \<open>The test of the scoring loop, with \<^verbatim>\<open>answers.get(qid, "")\<close>.\<close>

definition is_correct :: "(string \<rightharpoonup> string) \<Rightarrow> question \<Rightarrow> bool" where
  "is_correct ans q \<longleftrightarrow> upper (get_or (ans (qid q)) '''') = upper (correct_option q)"

fun count_correct :: "(string \<rightharpoonup> string) \<Rightarrow> question list \<Rightarrow> int \<Rightarrow> int" where
  "count_correct ans [] correct = correct"
| "count_correct ans (q # qs) correct =
     count_correct ans qs (if is_correct ans q then correct + 1 else correct)"

text \<open>
  \<^verbatim>\<open>submit_quiz\<close>, up to the reply. \<^verbatim>\<open>total * 0.5\<close> is a float product; it is exact for
  every list length below \<open>2 ^ 53\<close>, and Python compares an int with a float by value, so
  the comparison is the one on the reals. The e-mail call runs after the write inside a
  \<^verbatim>\<open>try\<close> that discards every exception and is left out.
\<close>

text \<open>\<^verbatim>\<open>questions_col.find({"quiz_id": quiz_id})\<close>.\<close>

definition questions_of :: "string \<Rightarrow> question list \<Rightarrow> question list" where
  "questions_of quiz questions_col = filter (\<lambda>q. q_quiz_id q = quiz) questions_col"

definition submit_quiz ::
  "(string \<Rightarrow> datetime option) \<Rightarrow> string \<Rightarrow> question list \<Rightarrow> string \<Rightarrow> string \<Rightarrow> QuizSubmit \<Rightarrow>
   attempt list \<Rightarrow> (error + submit_reply) \<times> attempt list"
where
  "submit_quiz fromisoformat now questions_col quiz univ_nr payload col =
    (let existing = find_one (by_key univ_nr quiz) col in
     if (case existing of None \<Rightarrow> False | Some (i, a) \<Rightarrow> is_terminal a)
     then (Inl (HTTPException 400 ''Quiz already submitted''), col)
     else
       (let violation_count' =
              (case existing of None \<Rightarrow> 0 | Some (i, a) \<Rightarrow> get_or (violation_count a) 0);
            force = (p_force_fail payload = Some True);
            all_questions = questions_of quiz questions_col;
            correct = count_correct (p_answers payload) all_questions 0;
            total = length all_questions;
            score' = (if force then 0 else correct);
            status' =
              (if force then ''FAILED''
               else if real_of_int correct \<ge> real total * 0.5 \<and> violation_count' \<le> 1
               then ''PASSED'' else ''FAILED'');
            submitted_at' = now;
            stored_score = (if \<not> force then score' else 0);
            col' =
              (case existing of
                 Some (i, a) \<Rightarrow>
                   col[i := a\<lparr>student_university_number := univ_nr, quiz_id := quiz,
                              answers := p_answers payload, score := Some stored_score,
                              violation_count := Some violation_count',
                              status := Some status',
                              started_at := Some (p_started_at payload),
                              submitted_at := Some submitted_at'\<rparr>]
               | None \<Rightarrow>
                   col @ [\<lparr>student_university_number = univ_nr, quiz_id = quiz,
                           answers = p_answers payload, score = Some stored_score,
                           violation_count = Some violation_count',
                           violations = None, status = Some status',
                           started_at = Some (p_started_at payload),
                           submitted_at = Some submitted_at'\<rparr>]);
            rank' = compute_rank fromisoformat quiz univ_nr col'
        in (Inr \<lparr>r_score = stored_score, r_status = status',
                 r_violation_count = violation_count', r_rank = rank',
                 r_submitted_at = submitted_at'\<rparr>, col')))"

subsection \<open>Sequences of requests\<close>

text \<open>
  The two writing endpoints as requests (Initialize is a violation report with the type
  \<^verbatim>\<open>"__init__"\<close>), and the collection after a list of them; a request that raises leaves
  what it had written.
\<close>

datatype request =
  Violation string string string string
| Submit string string string QuizSubmit

fun apply_request ::
  "(string \<Rightarrow> datetime option) \<Rightarrow> question list \<Rightarrow> attempt list \<Rightarrow> request \<Rightarrow> attempt list" where
  "apply_request fromisoformat questions_col col (Violation now quiz univ_nr violation_type) =
     snd (report_violation now quiz univ_nr violation_type col)"
| "apply_request fromisoformat questions_col col (Submit now quiz univ_nr payload) =
     snd (submit_quiz fromisoformat now questions_col quiz univ_nr payload col)"

definition run ::
  "(string \<Rightarrow> datetime option) \<Rightarrow> question list \<Rightarrow> request list \<Rightarrow> attempt list \<Rightarrow> attempt list" where
  "run fromisoformat questions_col reqs col =
     foldl (apply_request fromisoformat questions_col) col reqs"

subsection \<open>Observations used in the statements\<close>

text \<open>The attempt a pair of student and quiz has, as \<^verbatim>\<open>find_one\<close> sees it.\<close>

definition attempt_of :: "string \<Rightarrow> string \<Rightarrow> attempt list \<Rightarrow> attempt option" where
  "attempt_of univ_nr quiz col = map_option snd (find_one (by_key univ_nr quiz) col)"

text \<open>The violation count \<^verbatim>\<open>submit_quiz\<close> reads before it scores.\<close>

definition prior_violations :: "string \<Rightarrow> string \<Rightarrow> attempt list \<Rightarrow> int" where
  "prior_violations univ_nr quiz col =
    (case attempt_of univ_nr quiz col of None \<Rightarrow> 0 | Some a \<Rightarrow> get_or (violation_count a) 0)"

text \<open>At most one attempt for each pair of student and quiz.\<close>

definition unique_keys :: "attempt list \<Rightarrow> bool" where
  "unique_keys col \<longleftrightarrow> distinct (map (\<lambda>a. (student_university_number a, quiz_id a)) col)"

subsection \<open>Example data\<close>

text \<open>
  The values of \<^verbatim>\<open>datetime.fromisoformat\<close> on the timestamps of the examples, in
  microseconds since 1970-01-01T00:00:00; the last one carries a UTC offset.
\<close>

definition demo_fromisoformat :: "string \<Rightarrow> datetime option" where
  "demo_fromisoformat = map_of
    [(''2024-01-01T10:00:00'', Naive 1704103200000000),
     (''2024-01-01T10:00:10'', Naive 1704103210000000),
     (''2024-01-01T10:01:30'', Naive 1704103290000000),
     (''2024-01-01T10:02:00'', Naive 1704103320000000),
     (''2024-01-01T10:05:00'', Naive 1704103500000000),
     (''2024-01-02T10:00:10'', Naive 1704189610000000),
     (''2024-01-01T10:00:00+00:00'', Aware 1704103200000000)]"

definition demo_students :: "string \<rightharpoonup> string" where
  "demo_students = [''s1'' \<mapsto> ''Ann'', ''s2'' \<mapsto> ''Bob'', ''s3'' \<mapsto> ''Cy'']"

text \<open>Four questions of quiz1 and one of another quiz.\<close>

definition demo_questions :: "question list" where
  "demo_questions =
    [\<lparr>qid = ''q1'', q_quiz_id = ''quiz1'', correct_option = ''A''\<rparr>,
     \<lparr>qid = ''q2'', q_quiz_id = ''quiz1'', correct_option = ''B''\<rparr>,
     \<lparr>qid = ''q3'', q_quiz_id = ''quiz1'', correct_option = ''C''\<rparr>,
     \<lparr>qid = ''q4'', q_quiz_id = ''quiz1'', correct_option = ''D''\<rparr>,
     \<lparr>qid = ''q5'', q_quiz_id = ''quiz2'', correct_option = ''A''\<rparr>]"

text \<open>Two right answers (one in lower case), one wrong, one missing.\<close>

definition demo_payload :: QuizSubmit where
  "demo_payload =
    \<lparr>p_answers = [''q1'' \<mapsto> ''a'', ''q2'' \<mapsto> ''B'', ''q3'' \<mapsto> ''D''],
     p_started_at = ''2024-01-01T10:00:00'', p_force_fail = Some False\<rparr>"

text \<open>A finished attempt of student \<open>u\<close> on quiz1, started at 10:00:00.\<close>

definition finished :: "string \<Rightarrow> int \<Rightarrow> string \<Rightarrow> string \<Rightarrow> attempt" where
  "finished u sc st submitted =
    \<lparr>student_university_number = u, quiz_id = ''quiz1'', answers = Map.empty,
     score = Some sc, violation_count = Some 0, violations = Some [], status = Some st,
     started_at = Some ''2024-01-01T10:00:00'', submitted_at = Some submitted\<rparr>"

text \<open>A (score 8, 120 s), B (score 8, 90 s) and C (score 9, 300 s).\<close>

definition attempt_A :: attempt where
  "attempt_A = finished ''s1'' 8 ''PASSED'' ''2024-01-01T10:02:00''"

definition attempt_B :: attempt where
  "attempt_B = finished ''s2'' 8 ''PASSED'' ''2024-01-01T10:01:30''"

definition attempt_C :: attempt where
  "attempt_C = finished ''s3'' 9 ''PASSED'' ''2024-01-01T10:05:00''"



text \<open>
  A failed attempt of s1 on quiz1 whose start, sent by the client, carries a UTC offset,
  while the submission time is the server's \<^verbatim>\<open>utcnow\<close> without one, ten seconds later.
\<close>

definition offset_attempt :: attempt where
  "offset_attempt =
    \<lparr>student_university_number = ''s1'', quiz_id = ''quiz1'', answers = Map.empty,
     score = Some 0, violation_count = Some 0, violations = None, status = Some ''FAILED'',
     started_at = Some ''2024-01-01T10:00:00+00:00'',
     submitted_at = Some ''2024-01-01T10:00:10''\<rparr>"

text \<open>An attempt of s4 on quiz1 that is still in progress.\<close>

definition open_attempt :: attempt where
  "open_attempt =
    \<lparr>student_university_number = ''s4'', quiz_id = ''quiz1'', answers = Map.empty,
     score = Some 0, violation_count = Some 1, violations = Some [''noise''],
     status = Some ''IN_PROGRESS'', started_at = Some ''2024-01-01T10:00:00'',
     submitted_at = None\<rparr>"

section \<open>Lookup and submission\<close>

text \<open>
  \<open>find_one\<close> returns the first match and its position; after an update of that position
  with a document of the same key, or after an insert when nothing matched, it returns the
  written document.
\<close>

lemma find_one_SomeD:
  "find_one P xs = Some (i, a) \<Longrightarrow> i < length xs \<and> xs ! i = a \<and> P a"
proof (induction xs arbitrary: i)
  case Nil
  then show ?case by simp
next
  case (Cons x xs)
  show ?case
  proof (cases "P x")
    case True
    with Cons.prems show ?thesis by simp
  next
    case False
    with Cons.prems obtain j where j: "find_one P xs = Some (j, a)" "i = Suc j"
      by (auto split: prod.splits)
    from Cons.IH [OF j(1)] j(2) show ?thesis by simp
  qed
qed

lemma find_one_None_iff: "find_one P xs = None \<longleftrightarrow> (\<forall>x \<in> set xs. \<not> P x)"
  by (induction xs) auto

lemma find_one_before:
  "find_one P xs = Some (i, a) \<Longrightarrow> j < i \<Longrightarrow> \<not> P (xs ! j)"
proof (induction xs arbitrary: i j)
  case Nil
  then show ?case by simp
next
  case (Cons x xs)
  show ?case
  proof (cases "P x")
    case True
    with Cons.prems show ?thesis by simp
  next
    case False
    with Cons.prems obtain k where k: "find_one P xs = Some (k, a)" "i = Suc k"
      by (auto split: prod.splits)
    show ?thesis
    proof (cases j)
      case 0
      with False show ?thesis by simp
    next
      case (Suc j')
      with Cons.prems k have "j' < k" by simp
      from Cons.IH [OF k(1) this] Suc show ?thesis by simp
    qed
  qed
qed

lemma find_one_update:
  "find_one P xs = Some (i, a) \<Longrightarrow> P b \<Longrightarrow> find_one P (xs[i := b]) = Some (i, b)"
proof (induction xs arbitrary: i)
  case Nil
  then show ?case by simp
next
  case (Cons x xs)
  show ?case
  proof (cases "P x")
    case True
    with Cons.prems show ?thesis by simp
  next
    case False
    with Cons.prems obtain k where k: "find_one P xs = Some (k, a)" "i = Suc k"
      by (auto split: prod.splits)
    from Cons.IH [OF k(1) Cons.prems(2)] k(2) False show ?thesis by simp
  qed
qed

lemma find_one_append_new:
  "find_one P xs = None \<Longrightarrow> P b \<Longrightarrow> find_one P (xs @ [b]) = Some (length xs, b)"
  by (induction xs) (auto split: if_splits)

text \<open>The pass threshold in integers: at least half of the questions.\<close>

lemma half_threshold: "real_of_int c \<ge> real n * 0.5 \<longleftrightarrow> int n \<le> 2 * c"
  by auto

text \<open>The scoring loop is a count; upper-casing keeps the empty string apart from the rest.\<close>

lemma upper_Nil_iff: "upper s = [] \<longleftrightarrow> s = []"
  by (simp add: upper_def)


text \<open>
  \<^verbatim>\<open>submit_quiz\<close>: the rejected call, and the reply and stored attempt of an accepted one.
\<close>

lemma by_key_update [simp]:
  "by_key u quiz (a\<lparr>student_university_number := u, quiz_id := quiz, answers := an, score := sc,
     violation_count := vc, status := st, started_at := sa, submitted_at := su\<rparr>)"
  by (simp add: by_key_def)

lemma submit_quiz_rejected:
  assumes "find_one (by_key u quiz) col = Some (i, a)" and "is_terminal a"
  shows "submit_quiz f now qs quiz u p col = (Inl (HTTPException 400 ''Quiz already submitted''), col)"
  using assms by (simp add: submit_quiz_def)


lemma submit_quiz_Inr:
  assumes "submit_quiz f now qs quiz u p col = (Inr r, col')"
  shows "r_violation_count r = prior_violations u quiz col"
    and "r_score r = (if p_force_fail p = Some True then 0
                   else count_correct (p_answers p) (questions_of quiz qs) 0)"
    and "r_status r =
        (if p_force_fail p = Some True then ''FAILED''
         else if real_of_int (count_correct (p_answers p) (questions_of quiz qs) 0)
                   \<ge> real (length (questions_of quiz qs)) * 0.5
                 \<and> prior_violations u quiz col \<le> 1
         then ''PASSED'' else ''FAILED'')"
    and "\<exists>b. attempt_of u quiz col' = Some b \<and> score b = Some (r_score r)
           \<and> status b = Some (r_status r) \<and> violation_count b = Some (r_violation_count r)"
proof -
  show "r_violation_count r = prior_violations u quiz col"
    using assms
    by (auto simp: submit_quiz_def Let_def prior_violations_def attempt_of_def
        split: option.splits prod.splits if_splits)
  show "r_score r = (if p_force_fail p = Some True then 0
                   else count_correct (p_answers p) (questions_of quiz qs) 0)"
    using assms
    by (auto simp: submit_quiz_def Let_def split: option.splits prod.splits if_splits)
  show "r_status r =
        (if p_force_fail p = Some True then ''FAILED''
         else if real_of_int (count_correct (p_answers p) (questions_of quiz qs) 0)
                   \<ge> real (length (questions_of quiz qs)) * 0.5
                 \<and> prior_violations u quiz col \<le> 1
         then ''PASSED'' else ''FAILED'')"
    using assms
    by (auto simp: submit_quiz_def Let_def prior_violations_def attempt_of_def
        split: option.splits prod.splits if_splits)
  show "\<exists>b. attempt_of u quiz col' = Some b \<and> score b = Some (r_score r)
           \<and> status b = Some (r_status r) \<and> violation_count b = Some (r_violation_count r)"
  proof (cases "find_one (by_key u quiz) col")
    case None
    with assms show ?thesis
      by (auto simp: submit_quiz_def Let_def attempt_of_def find_one_append_new by_key_def)
  next
    case (Some ia)
    obtain i a where ia: "ia = (i, a)" by (cases ia)
    with Some have fo: "find_one (by_key u quiz) col = Some (i, a)" by simp
    with assms show ?thesis
      by (auto simp: submit_quiz_def Let_def attempt_of_def find_one_update
          split: if_splits)
  qed
qed


lemma unique_keys_same:
  assumes "unique_keys col" and "a \<in> set col" and "b \<in> set col"
    and "by_key u quiz a" and "by_key u quiz b"
  shows "a = b"
proof -
  let ?k = "\<lambda>a. (student_university_number a, quiz_id a)"
  from assms(1) have "inj_on ?k (set col)"
    by (simp add: unique_keys_def distinct_map)
  moreover from assms(4,5) have "?k a = ?k b" by (simp add: by_key_def)
  ultimately show ?thesis using assms(2,3) by (rule inj_onD)
qed

lemma attempt_of_SomeD: "attempt_of u quiz col = Some a \<Longrightarrow> a \<in> set col \<and> by_key u quiz a"
  by (cases "find_one (by_key u quiz) col") (auto simp: attempt_of_def dest!: find_one_SomeD)

lemma attempt_of_None_iff: "attempt_of u quiz col = None \<longleftrightarrow> (\<forall>a \<in> set col. \<not> by_key u quiz a)"
  by (simp add: attempt_of_def find_one_None_iff)

lemma submit_quiz_fst_Inl_iff:
  "(\<exists>e. fst (submit_quiz f now qs quiz u p col) = Inl e)
    \<longleftrightarrow> (\<exists>a. attempt_of u quiz col = Some a \<and> is_terminal a)"
  by (auto simp: submit_quiz_def Let_def attempt_of_def split: option.splits)

lemma submit_quiz_Inl:
  assumes "fst (submit_quiz f now qs quiz u p col) = Inl e"
  shows "e = HTTPException 400 ''Quiz already submitted''"
    and "snd (submit_quiz f now qs quiz u p col) = col"
  using assms by (auto simp: submit_quiz_def Let_def split: option.splits if_splits)

text \<open>
  Claim C8. On a collection with at most one attempt for each pair of student and quiz,
  \<^verbatim>\<open>submit_quiz\<close> raises exactly when the pair has an attempt whose status is PASSED or
  FAILED; the only error it raises is the HTTP 400 "Quiz already submitted", and when it
  raises the collection is the one it was given.
\<close>

theorem submit_quiz_already_submitted:
  assumes "unique_keys col"
  shows "((\<exists>e. fst (submit_quiz fromisoformat now questions_col quiz u payload col) = Inl e)
           \<longleftrightarrow> (\<exists>a \<in> set col. by_key u quiz a \<and> is_terminal a))
       \<and> (fst (submit_quiz fromisoformat now questions_col quiz u payload col) = Inl e
           \<longrightarrow> e = HTTPException 400 ''Quiz already submitted''
             \<and> snd (submit_quiz fromisoformat now questions_col quiz u payload col) = col)"
proof (intro conjI impI)
  show "(\<exists>e. fst (submit_quiz fromisoformat now questions_col quiz u payload col) = Inl e)
           \<longleftrightarrow> (\<exists>a \<in> set col. by_key u quiz a \<and> is_terminal a)"
  proof
    assume "\<exists>e. fst (submit_quiz fromisoformat now questions_col quiz u payload col) = Inl e"
    then obtain a where "attempt_of u quiz col = Some a" "is_terminal a"
      by (auto simp: submit_quiz_fst_Inl_iff)
    then show "\<exists>a \<in> set col. by_key u quiz a \<and> is_terminal a"
      by (auto dest: attempt_of_SomeD)
  next
    assume "\<exists>a \<in> set col. by_key u quiz a \<and> is_terminal a"
    then obtain a where a: "a \<in> set col" "by_key u quiz a" "is_terminal a" by blast
    then have "attempt_of u quiz col \<noteq> None" by (auto simp: attempt_of_None_iff)
    then obtain b where b: "attempt_of u quiz col = Some b" by blast
    then have "b \<in> set col" "by_key u quiz b" by (auto dest: attempt_of_SomeD)
    with assms a have "a = b" by (blast intro: unique_keys_same)
    with a b show "\<exists>e. fst (submit_quiz fromisoformat now questions_col quiz u payload col) = Inl e"
      by (auto simp: submit_quiz_fst_Inl_iff)
  qed
next
  assume "fst (submit_quiz fromisoformat now questions_col quiz u payload col) = Inl e"
  then show "e = HTTPException 400 ''Quiz already submitted''"
    by (rule submit_quiz_Inl)
next
  assume "fst (submit_quiz fromisoformat now questions_col quiz u payload col) = Inl e"
  then show "snd (submit_quiz fromisoformat now questions_col quiz u payload col) = col"
    by (rule submit_quiz_Inl)
qed

lemma finished_simps [simp]:
  "student_university_number (finished u sc st t) = u"
  "quiz_id (finished u sc st t) = ''quiz1''"
  "score (finished u sc st t) = Some sc"
  "status (finished u sc st t) = Some st"
  "violation_count (finished u sc st t) = Some 0"
  "started_at (finished u sc st t) = Some ''2024-01-01T10:00:00''"
  "submitted_at (finished u sc st t) = Some t"
  by (simp_all add: finished_def)

text \<open>The witness: student s1 submits again on quiz1 after attempt A is finished.\<close>

theorem submit_quiz_already_submitted_witness:
  "unique_keys [attempt_A, attempt_B]
   \<and> fst (submit_quiz demo_fromisoformat ''2024-01-01T10:05:00'' demo_questions ''quiz1'' ''s1''
            demo_payload [attempt_A, attempt_B])
       = Inl (HTTPException 400 ''Quiz already submitted'')
   \<and> snd (submit_quiz demo_fromisoformat ''2024-01-01T10:05:00'' demo_questions ''quiz1'' ''s1''
            demo_payload [attempt_A, attempt_B])
       = [attempt_A, attempt_B]"
proof -
  have u: "unique_keys [attempt_A, attempt_B]"
    by (simp add: unique_keys_def attempt_A_def attempt_B_def)
  have t: "\<exists>a \<in> set [attempt_A, attempt_B]. by_key ''s1'' ''quiz1'' a \<and> is_terminal a"
    by (simp add: by_key_def is_terminal_def attempt_A_def)
  from submit_quiz_already_submitted [OF u, of demo_fromisoformat "''2024-01-01T10:05:00''"
      demo_questions "''quiz1''" "''s1''" demo_payload] t u
  show ?thesis by metis
qed

text \<open>
  Claim C2. For every call of \<^verbatim>\<open>submit_quiz\<close> that is not rejected, the attempt the pair
  has afterwards holds the score and status of the reply. With \<^verbatim>\<open>force_fail\<close> true the
  score is 0 and the status FAILED. Otherwise the score is the count of the scoring loop
  and the status is PASSED exactly when the score is at least half the number of questions
  and the prior violation count is at most 1, else FAILED; so 2 of 4 with no violation
  passes, 1 of 4 fails, and 4 of 4 with 2 violations fails.
\<close>

theorem submit_quiz_pass_policy:
  assumes "submit_quiz fromisoformat now questions_col quiz u payload col = (Inr r, col')"
  shows "(\<exists>b. attempt_of u quiz col' = Some b \<and> score b = Some (r_score r)
            \<and> status b = Some (r_status r))
    \<and> (p_force_fail payload = Some True \<longrightarrow> r_score r = 0 \<and> r_status r = ''FAILED'')
    \<and> (p_force_fail payload \<noteq> Some True \<longrightarrow>
         r_score r = count_correct (p_answers payload) (questions_of quiz questions_col) 0
       \<and> (r_status r = ''PASSED'' \<longleftrightarrow>
            real_of_int (r_score r) \<ge> real (length (questions_of quiz questions_col)) * 0.5
            \<and> prior_violations u quiz col \<le> 1)
       \<and> (r_status r = ''FAILED'' \<longleftrightarrow>
            \<not> (real_of_int (r_score r) \<ge> real (length (questions_of quiz questions_col)) * 0.5
               \<and> prior_violations u quiz col \<le> 1))
       \<and> (length (questions_of quiz questions_col) = 4 \<and> r_score r = 2
            \<and> prior_violations u quiz col = 0 \<longrightarrow> r_status r = ''PASSED'')
       \<and> (length (questions_of quiz questions_col) = 4 \<and> r_score r = 1
            \<longrightarrow> r_status r = ''FAILED'')
       \<and> (length (questions_of quiz questions_col) = 4 \<and> r_score r = 4
            \<and> prior_violations u quiz col = 2 \<longrightarrow> r_status r = ''FAILED''))"
proof -
  note facts = submit_quiz_Inr [OF assms]
  have stored: "\<exists>b. attempt_of u quiz col' = Some b \<and> score b = Some (r_score r)
            \<and> status b = Some (r_status r)"
    using facts(4) by blast
  have forced: "p_force_fail payload = Some True \<longrightarrow> r_score r = 0 \<and> r_status r = ''FAILED''"
    using facts(2,3) by simp
  have policy: "p_force_fail payload \<noteq> Some True \<longrightarrow>
         r_score r = count_correct (p_answers payload) (questions_of quiz questions_col) 0
       \<and> (r_status r = ''PASSED'' \<longleftrightarrow>
            real_of_int (r_score r) \<ge> real (length (questions_of quiz questions_col)) * 0.5
            \<and> prior_violations u quiz col \<le> 1)
       \<and> (r_status r = ''FAILED'' \<longleftrightarrow>
            \<not> (real_of_int (r_score r) \<ge> real (length (questions_of quiz questions_col)) * 0.5
               \<and> prior_violations u quiz col \<le> 1))"
    using facts(2,3) by simp
  from stored forced policy show ?thesis by auto
qed

text \<open>The witness: a first submission with 2 of the 4 questions of quiz1 right.\<close>

theorem submit_quiz_pass_policy_witness:
  "submit_quiz demo_fromisoformat ''2024-01-01T10:05:00'' demo_questions ''quiz1'' ''s1''
      demo_payload [] =
    (Inr \<lparr>r_score = 2, r_status = ''PASSED'', r_violation_count = 0, r_rank = 1,
          r_submitted_at = ''2024-01-01T10:05:00''\<rparr>,
     [\<lparr>student_university_number = ''s1'', quiz_id = ''quiz1'',
       answers = p_answers demo_payload, score = Some 2, violation_count = Some 0,
       violations = None, status = Some ''PASSED'',
       started_at = Some ''2024-01-01T10:00:00'',
       submitted_at = Some ''2024-01-01T10:05:00''\<rparr>])
   \<and> length (questions_of ''quiz1'' demo_questions) = 4
   \<and> prior_violations ''s1'' ''quiz1'' [] = 0"
proof -
  have run: "submit_quiz demo_fromisoformat ''2024-01-01T10:05:00'' demo_questions ''quiz1'' ''s1''
      demo_payload [] =
    (Inr \<lparr>r_score = 2, r_status = ''PASSED'', r_violation_count = 0, r_rank = 1,
          r_submitted_at = ''2024-01-01T10:05:00''\<rparr>,
     [\<lparr>student_university_number = ''s1'', quiz_id = ''quiz1'',
       answers = p_answers demo_payload, score = Some 2, violation_count = Some 0,
       violations = None, status = Some ''PASSED'',
       started_at = Some ''2024-01-01T10:00:00'',
       submitted_at = Some ''2024-01-01T10:05:00''\<rparr>])"
    by (simp add: submit_quiz_def demo_questions_def demo_payload_def is_correct_def get_or_def
        questions_of_def upper_def upper_char_def compute_rank_def terminal_of_def
        is_terminal_def Let_def)
  have four: "length (questions_of ''quiz1'' demo_questions) = 4"
    by (simp add: questions_of_def demo_questions_def)
  from submit_quiz_pass_policy [OF run] run four show ?thesis
    by (simp add: prior_violations_def attempt_of_def)
qed

text \<open>
  Claim C10. On a quiz with no question, a call of \<^verbatim>\<open>submit_quiz\<close> without
  \<^verbatim>\<open>force_fail\<close>, with a prior violation count of at most 1 and no finished attempt of
  the pair, returns and stores score 0 with status PASSED.
\<close>

theorem empty_quiz_passes:
  assumes "questions_of quiz questions_col = []"
    and "p_force_fail payload \<noteq> Some True"
    and "prior_violations u quiz col \<le> 1"
    and "\<forall>a. attempt_of u quiz col = Some a \<longrightarrow> \<not> is_terminal a"
  shows "\<exists>r col'. submit_quiz fromisoformat now questions_col quiz u payload col = (Inr r, col')
    \<and> r_score r = 0 \<and> r_status r = ''PASSED''
    \<and> (\<exists>b. attempt_of u quiz col' = Some b \<and> score b = Some 0 \<and> status b = Some ''PASSED'')"
proof -
  from assms(4) have "\<not> (\<exists>e. fst (submit_quiz fromisoformat now questions_col quiz u payload col) = Inl e)"
    by (simp add: submit_quiz_fst_Inl_iff)
  then obtain r col' where
    run: "submit_quiz fromisoformat now questions_col quiz u payload col = (Inr r, col')"
    by (cases "submit_quiz fromisoformat now questions_col quiz u payload col";
        cases "fst (submit_quiz fromisoformat now questions_col quiz u payload col)") auto
  note facts = submit_quiz_Inr [OF run]
  from facts(2) assms(1,2) have sc: "r_score r = 0" by simp
  from facts(3) assms(1,2,3) have st: "r_status r = ''PASSED''" by simp
  from facts(4) sc st run show ?thesis by auto
qed

text \<open>The witness: a submission on quiz9, which has no question.\<close>

theorem empty_quiz_passes_witness:
  "questions_of ''quiz9'' demo_questions = []
   \<and> fst (submit_quiz demo_fromisoformat ''2024-01-01T10:05:00'' demo_questions ''quiz9'' ''s1''
            demo_payload [])
       = Inr \<lparr>r_score = 0, r_status = ''PASSED'', r_violation_count = 0, r_rank = 1,
              r_submitted_at = ''2024-01-01T10:05:00''\<rparr>"
proof -
  have q: "questions_of ''quiz9'' demo_questions = []"
    by (simp add: questions_of_def demo_questions_def)
  have f: "p_force_fail demo_payload \<noteq> Some True" by (simp add: demo_payload_def)
  have v: "prior_violations ''s1'' ''quiz9'' [] \<le> 1"
    by (simp add: prior_violations_def attempt_of_def)
  have n: "\<forall>a. attempt_of ''s1'' ''quiz9'' [] = Some a \<longrightarrow> \<not> is_terminal a"
    by (simp add: attempt_of_def)
  from empty_quiz_passes [OF q f v n, of demo_fromisoformat "''2024-01-01T10:05:00''"] q
  show ?thesis
    by (auto simp: submit_quiz_def Let_def compute_rank_def terminal_of_def is_terminal_def
        demo_payload_def)
qed

section \<open>Scoring\<close>




section \<open>Violation reports\<close>

text \<open>The three paths of \<^verbatim>\<open>report_violation\<close>, each as one equation.\<close>

lemma report_violation_init:
  "report_violation now quiz u ''__init__'' col =
    (Inr \<lparr>v_violation_count = 0, v_status = ''IN_PROGRESS''\<rparr>,
     (case find_one (by_key u quiz) col of
        None \<Rightarrow> col @ [\<lparr>student_university_number = u, quiz_id = quiz,
                         answers = Map.empty, score = Some 0, violation_count = Some 0,
                         violations = Some [], status = Some ''IN_PROGRESS'',
                         started_at = Some now, submitted_at = None\<rparr>]
      | Some _ \<Rightarrow> col))"
  by (simp add: report_violation_def)

lemma report_violation_active:
  assumes "violation_type \<noteq> ''__init__''"
    and "find_one (by_key u quiz) col = Some (i, a)"
    and "status a = Some ''IN_PROGRESS'' \<or> status a = None"
  shows "report_violation now quiz u violation_type col =
    (if violation_type = ''tab_switch'' \<or> get_or (violation_count a) 0 + 1 > 1
     then (Inr \<lparr>v_violation_count = get_or (violation_count a) 0 + 1, v_status = ''FAILED''\<rparr>,
           col[i := a\<lparr>violation_count := Some (get_or (violation_count a) 0 + 1),
                      violations := Some (get_or (violations a) [] @ [violation_type]),
                      status := Some ''FAILED'', submitted_at := Some now\<rparr>])
     else ((case status a of
              None \<Rightarrow> Inl (KeyError ''status'')
            | Some s \<Rightarrow> Inr \<lparr>v_violation_count = get_or (violation_count a) 0 + 1, v_status = s\<rparr>),
           col[i := a\<lparr>violation_count := Some (get_or (violation_count a) 0 + 1),
                      violations := Some (get_or (violations a) [] @ [violation_type])\<rparr>]))"
  using assms by (auto simp: report_violation_def Let_def)

lemma report_violation_inactive:
  assumes "violation_type \<noteq> ''__init__''"
    and "find_one (by_key u quiz) col = None
         \<or> (\<exists>i a. find_one (by_key u quiz) col = Some (i, a)
               \<and> status a \<noteq> Some ''IN_PROGRESS'' \<and> status a \<noteq> None)"
  shows "report_violation now quiz u violation_type col =
    (Inl (HTTPException 404 ''No active attempt found''), col)"
  using assms by (auto simp: report_violation_def Let_def)




text \<open>
  Claim C6 at a failing input. Initialize, a tab switch, then Initialize again: the second
  Initialize leaves the attempt as it is (FAILED, one violation) and replies with
  violation count 0 and status IN_PROGRESS, which is not the state of the attempt.
\<close>

theorem init_reply_ignores_stored_attempt:
  "report_violation ''2024-01-01T10:01:30'' ''quiz1'' ''s1'' ''__init__''
     (snd (report_violation ''2024-01-01T10:00:10'' ''quiz1'' ''s1'' ''tab_switch''
       (snd (report_violation ''2024-01-01T10:00:00'' ''quiz1'' ''s1'' ''__init__'' []))))
   = (Inr \<lparr>v_violation_count = 0, v_status = ''IN_PROGRESS''\<rparr>,
      [\<lparr>student_university_number = ''s1'', quiz_id = ''quiz1'', answers = Map.empty,
        score = Some 0, violation_count = Some 1, violations = Some [''tab_switch''],
        status = Some ''FAILED'', started_at = Some ''2024-01-01T10:00:00'',
        submitted_at = Some ''2024-01-01T10:00:10''\<rparr>])"
  by (simp add: report_violation_def Let_def by_key_def get_or_def)
section \<open>Sequences of requests\<close>

text \<open>What one request may do to the document at a position of the collection.\<close>

lemma get_or_Some [simp]: "get_or (Some x) d = x"
  by (simp add: get_or_def)

lemma report_violation_step:
  assumes "j < length col"
  shows "j < length (snd (report_violation now quiz u violation_type col))"
    and "is_terminal (col ! j) \<Longrightarrow>
           snd (report_violation now quiz u violation_type col) ! j = col ! j"
    and "get_or (violation_count (col ! j)) 0
           \<le> get_or (violation_count (snd (report_violation now quiz u violation_type col) ! j)) 0"
proof -
  let ?col' = "snd (report_violation now quiz u violation_type col)"
  have "j < length ?col' \<and> (is_terminal (col ! j) \<longrightarrow> ?col' ! j = col ! j)
      \<and> get_or (violation_count (col ! j)) 0 \<le> get_or (violation_count (?col' ! j)) 0"
  proof (cases "violation_type = ''__init__''")
    case True
    with assms show ?thesis
      by (simp add: report_violation_init nth_append split: option.splits)
  next
    case init: False
    show ?thesis
    proof (cases "find_one (by_key u quiz) col")
      case None
      with init assms show ?thesis by (simp add: report_violation_inactive)
    next
      case (Some ia)
      obtain i a where ia: "ia = (i, a)" by (cases ia)
      with Some have fo: "find_one (by_key u quiz) col = Some (i, a)" by simp
      from find_one_SomeD [OF fo] have i: "i < length col" "col ! i = a" by simp_all
      show ?thesis
      proof (cases "status a = Some ''IN_PROGRESS'' \<or> status a = None")
        case True
        then have nt: "\<not> is_terminal a" by (auto simp: is_terminal_def)
        show ?thesis
        proof (cases "j = i")
          case True
          with report_violation_active [OF init fo \<open>status a = Some ''IN_PROGRESS'' \<or> status a = None\<close>, of now]
            i nt assms
          show ?thesis by (auto split: if_splits)
        next
          case False
          with report_violation_active [OF init fo \<open>status a = Some ''IN_PROGRESS'' \<or> status a = None\<close>, of now]
            assms
          show ?thesis by (auto split: if_splits)
        qed
      next
        case False
        with init fo assms show ?thesis by (simp add: report_violation_inactive)
      qed
    qed
  qed
  then show "j < length ?col'"
    and "is_terminal (col ! j) \<Longrightarrow> ?col' ! j = col ! j"
    and "get_or (violation_count (col ! j)) 0 \<le> get_or (violation_count (?col' ! j)) 0"
    by simp_all
qed

lemma submit_quiz_step:
  assumes "j < length col"
  shows "j < length (snd (submit_quiz f now qs quiz u p col))"
    and "is_terminal (col ! j) \<Longrightarrow> snd (submit_quiz f now qs quiz u p col) ! j = col ! j"
    and "get_or (violation_count (col ! j)) 0
           \<le> get_or (violation_count (snd (submit_quiz f now qs quiz u p col) ! j)) 0"
proof -
  let ?col' = "snd (submit_quiz f now qs quiz u p col)"
  have "j < length ?col' \<and> (is_terminal (col ! j) \<longrightarrow> ?col' ! j = col ! j)
      \<and> get_or (violation_count (col ! j)) 0 \<le> get_or (violation_count (?col' ! j)) 0"
  proof (cases "find_one (by_key u quiz) col")
    case None
    with assms show ?thesis by (simp add: submit_quiz_def Let_def nth_append)
  next
    case (Some ia)
    obtain i a where ia: "ia = (i, a)" by (cases ia)
    with Some have fo: "find_one (by_key u quiz) col = Some (i, a)" by simp
    from find_one_SomeD [OF fo] have i: "i < length col" "col ! i = a" by simp_all
    show ?thesis
    proof (cases "is_terminal a")
      case True
      with fo assms show ?thesis by (simp add: submit_quiz_rejected)
    next
      case False
      with fo i assms show ?thesis
        by (cases "j = i") (auto simp: submit_quiz_def Let_def)
    qed
  qed
  then show "j < length ?col'"
    and "is_terminal (col ! j) \<Longrightarrow> ?col' ! j = col ! j"
    and "get_or (violation_count (col ! j)) 0 \<le> get_or (violation_count (?col' ! j)) 0"
    by simp_all
qed

lemma apply_request_step:
  assumes "j < length col"
  shows "j < length (apply_request f qs col req)"
    and "is_terminal (col ! j) \<Longrightarrow> apply_request f qs col req ! j = col ! j"
    and "get_or (violation_count (col ! j)) 0
           \<le> get_or (violation_count (apply_request f qs col req ! j)) 0"
  using assms
  by (cases req; simp add: report_violation_step submit_quiz_step)+

text \<open>
  Claim C4. Over any list of violation reports, initializations and submissions, for any
  keys: a document of the collection stays at its position; a document whose status is
  PASSED or FAILED is the same document afterwards, so its status is still terminal; and
  the violation count of a document (0 when not set) never gets smaller.
\<close>

theorem terminal_attempts_frozen:
  assumes "j < length col"
  shows "j < length (run fromisoformat questions_col reqs col)
    \<and> (is_terminal (col ! j) \<longrightarrow>
         run fromisoformat questions_col reqs col ! j = col ! j
         \<and> is_terminal (run fromisoformat questions_col reqs col ! j))
    \<and> get_or (violation_count (col ! j)) 0
         \<le> get_or (violation_count (run fromisoformat questions_col reqs col ! j)) 0"
  using assms
proof (induction reqs arbitrary: col)
  case Nil
  then show ?case by (simp add: run_def)
next
  case (Cons req reqs)
  let ?mid = "apply_request fromisoformat questions_col col req"
  note step = apply_request_step [OF Cons.prems, of fromisoformat questions_col req]
  note rest = Cons.IH [OF step(1)]
  have unfold: "run fromisoformat questions_col (req # reqs) col
              = run fromisoformat questions_col reqs ?mid"
    by (simp add: run_def)
  show ?case
  proof (intro conjI impI)
    show "j < length (run fromisoformat questions_col (req # reqs) col)"
      using rest unfold by simp
  next
    assume t: "is_terminal (col ! j)"
    with step(2) have "?mid ! j = col ! j" by simp
    with rest t unfold show "run fromisoformat questions_col (req # reqs) col ! j = col ! j"
      by simp
    with t show "is_terminal (run fromisoformat questions_col (req # reqs) col ! j)" by simp
  next
    from step(3) rest unfold
    show "get_or (violation_count (col ! j)) 0
         \<le> get_or (violation_count (run fromisoformat questions_col (req # reqs) col ! j)) 0"
      by simp
  qed
qed

text \<open>
  The witness: the finished attempt A under an initialization, a tab switch and a
  submission of its own student and a submission of another.
\<close>

theorem terminal_attempts_frozen_witness:
  "(0::nat) < length [attempt_A] \<and> is_terminal ([attempt_A] ! 0)
   \<and> run demo_fromisoformat demo_questions
        [Violation ''2024-01-01T10:05:00'' ''quiz1'' ''s1'' ''__init__'',
         Violation ''2024-01-01T10:05:00'' ''quiz1'' ''s1'' ''tab_switch'',
         Submit ''2024-01-01T10:05:00'' ''quiz1'' ''s1'' demo_payload,
         Submit ''2024-01-01T10:05:00'' ''quiz1'' ''s2'' demo_payload] [attempt_A] ! 0
      = attempt_A"
proof -
  have l: "(0::nat) < length [attempt_A]" by simp
  have t: "is_terminal ([attempt_A] ! 0)" by (simp add: is_terminal_def attempt_A_def)
  from terminal_attempts_frozen [OF l, of demo_fromisoformat demo_questions
      "[Violation ''2024-01-01T10:05:00'' ''quiz1'' ''s1'' ''__init__'',
        Violation ''2024-01-01T10:05:00'' ''quiz1'' ''s1'' ''tab_switch'',
        Submit ''2024-01-01T10:05:00'' ''quiz1'' ''s1'' demo_payload,
        Submit ''2024-01-01T10:05:00'' ''quiz1'' ''s2'' demo_payload]"] l t
  show ?thesis by simp
qed
section \<open>Leaderboard and rank\<close>

lemma truncate_add_rank [simp]: "lb_row.truncate (add_rank p) = snd p"
  by (cases p) (simp add: add_rank_def lb_row.truncate_def)

lemma sort_key_of_add_rank [simp]: "sort_key_of (add_rank p) = sort_key_of (snd p)"
  by (cases p) (simp add: add_rank_def sort_key_of_def)

lemma rank_add_rank [simp]: "rank (add_rank p) = int (fst p) + 1"
  by (cases p) (simp add: add_rank_def)

lemma map_enumerate_snd: "map (\<lambda>p. g (snd p)) (enumerate n xs) = map g xs"
  by (induction xs arbitrary: n) simp_all

lemma map_enumerate_fst: "map (\<lambda>p. g (fst p)) (enumerate n xs) = map g [n..<n + length xs]"
  by (induction xs arbitrary: n) (simp_all add: upt_rec)

lemma leaderboard_rows:
  "map lb_row.truncate (leaderboard f st quiz col) =
     sort_key sort_key_of (map (row_of f st) (filter (terminal_of quiz) col))"
  by (simp add: leaderboard_def Let_def comp_def)

lemma leaderboard_keys:
  "map sort_key_of (leaderboard f st quiz col) =
     map sort_key_of (sort_key sort_key_of (map (row_of f st) (filter (terminal_of quiz) col)))"
  by (simp add: leaderboard_def Let_def comp_def map_enumerate_snd)

lemma leaderboard_length:
  "length (leaderboard f st quiz col) = length (filter (terminal_of quiz) col)"
  by (simp add: leaderboard_def Let_def)

lemma leaderboard_ranks:
  "map rank (leaderboard f st quiz col) =
     map (\<lambda>i. int i + 1) [0..<length (leaderboard f st quiz col)]"
  by (simp add: leaderboard_def Let_def comp_def map_enumerate_fst [where g = "\<lambda>i. int i + 1"])

lemma leaderboard_sorted:
  "sorted_wrt (\<lambda>x y. lb_score x > lb_score y
                  \<or> (lb_score x = lb_score y \<and> time_taken_seconds x \<le> time_taken_seconds y))
     (leaderboard f st quiz col)"
proof -
  have "sorted (map sort_key_of (leaderboard f st quiz col))"
    by (simp add: leaderboard_keys)
  then have "sorted_wrt (\<lambda>x y. sort_key_of x \<le> sort_key_of y) (leaderboard f st quiz col)"
    by (simp add: sorted_map)
  then show ?thesis
    by (rule sorted_wrt_mono_rel [rotated]) (auto simp: sort_key_of_def less_eq_prod_def)
qed

lemma elapsed_A: "elapsed demo_fromisoformat attempt_A = Some 120"
  by (simp add: elapsed_def attempt_A_def demo_fromisoformat_def seconds_def)

lemma elapsed_B: "elapsed demo_fromisoformat attempt_B = Some 90"
  by (simp add: elapsed_def attempt_B_def demo_fromisoformat_def seconds_def)

lemma elapsed_C: "elapsed demo_fromisoformat attempt_C = Some 300"
  by (simp add: elapsed_def attempt_C_def demo_fromisoformat_def seconds_def)

lemma terminal_ABC:
  "terminal_of ''quiz1'' attempt_A" "terminal_of ''quiz1'' attempt_B"
  "terminal_of ''quiz1'' attempt_C" "\<not> terminal_of ''quiz1'' open_attempt"
  by (simp_all add: terminal_of_def is_terminal_def attempt_A_def attempt_B_def attempt_C_def
      open_attempt_def)

lemma filter_ABC:
  "filter (terminal_of ''quiz1'') [attempt_A, open_attempt, attempt_B, attempt_C]
     = [attempt_A, attempt_B, attempt_C]"
  by (simp add: terminal_ABC)

lemma rows_ABC:
  "row_of demo_fromisoformat demo_students attempt_A =
     \<lparr>name = ''Ann'', university_number = ''s1'', lb_score = 8, lb_status = ''PASSED'',
      lb_violation_count = 0, time_taken_seconds = 120\<rparr>"
  "row_of demo_fromisoformat demo_students attempt_B =
     \<lparr>name = ''Bob'', university_number = ''s2'', lb_score = 8, lb_status = ''PASSED'',
      lb_violation_count = 0, time_taken_seconds = 90\<rparr>"
  "row_of demo_fromisoformat demo_students attempt_C =
     \<lparr>name = ''Cy'', university_number = ''s3'', lb_score = 9, lb_status = ''PASSED'',
      lb_violation_count = 0, time_taken_seconds = 300\<rparr>"
  by (simp_all add: row_of_def Let_def elapsed_A elapsed_B elapsed_C demo_students_def)
    (simp_all add: attempt_A_def attempt_B_def attempt_C_def)

lemma leaderboard_ABC:
  "leaderboard demo_fromisoformat demo_students ''quiz1''
     [attempt_A, open_attempt, attempt_B, attempt_C] =
   [\<lparr>name = ''Cy'', university_number = ''s3'', lb_score = 9, lb_status = ''PASSED'',
      lb_violation_count = 0, time_taken_seconds = 300, rank = 1\<rparr>,
    \<lparr>name = ''Bob'', university_number = ''s2'', lb_score = 8, lb_status = ''PASSED'',
      lb_violation_count = 0, time_taken_seconds = 90, rank = 2\<rparr>,
    \<lparr>name = ''Ann'', university_number = ''s1'', lb_score = 8, lb_status = ''PASSED'',
      lb_violation_count = 0, time_taken_seconds = 120, rank = 3\<rparr>]"
  by (simp add: leaderboard_def Let_def terminal_ABC rows_ABC sort_key_of_def add_rank_def
      less_eq_prod_def)

lemma rank_loop_counts:
  "rank_loop f u as r =
     r + int (length (filter (\<lambda>a. student_university_number a \<noteq> u \<and> get_or (score a) 0 > 0) as))"
  by (induction as arbitrary: r) (auto split: option.splits)

lemma compute_rank_counts:
  "compute_rank f quiz u col =
     1 + int (length (filter (\<lambda>a. student_university_number a \<noteq> u \<and> get_or (score a) 0 > 0)
                        (filter (terminal_of quiz) col)))"
  by (simp add: compute_rank_def rank_loop_counts)

text \<open>
  Claim C1 at a failing input. With A (score 8, 120 s), B (score 8, 90 s) and C (score 9,
  300 s) finished on quiz1, \<^verbatim>\<open>compute_rank\<close> gives the student of C the rank 3, one
  more than the number of other finished attempts with a positive score, and the
  leaderboard gives the same student the rank 1.
\<close>

theorem compute_rank_ignores_own_score:
  "compute_rank demo_fromisoformat ''quiz1'' ''s3'' [attempt_A, open_attempt, attempt_B, attempt_C] = 3
   \<and> map (\<lambda>e. (university_number e, rank e))
        (leaderboard demo_fromisoformat demo_students ''quiz1''
           [attempt_A, open_attempt, attempt_B, attempt_C])
      = [(''s3'', 1), (''s2'', 2), (''s1'', 3)]"
proof -
  have "compute_rank demo_fromisoformat ''quiz1'' ''s3''
          [attempt_A, open_attempt, attempt_B, attempt_C] = 3"
    unfolding compute_rank_counts filter_ABC
    by (simp add: attempt_A_def attempt_B_def attempt_C_def)
  then show ?thesis by (simp add: leaderboard_ABC)
qed

text \<open>
  Claim C5. The rows of the leaderboard of a quiz are, as a multiset, the rows of the
  attempts of that quiz whose status is PASSED or FAILED; of any two entries the earlier
  one has the higher score, or the same score and a time that is not larger; the ranks are
  1, 2, ... in order. A (8, 120 s), B (8, 90 s) and C (9, 300 s), with an attempt in
  progress beside them, come out as C, B, A with ranks 1, 2, 3.
\<close>

theorem leaderboard_order_and_ranks:
  "mset (map lb_row.truncate (leaderboard fromisoformat students quiz col))
     = mset (map (row_of fromisoformat students) (filter (terminal_of quiz) col))
   \<and> sorted_wrt (\<lambda>x y. lb_score x > lb_score y
                  \<or> (lb_score x = lb_score y \<and> time_taken_seconds x \<le> time_taken_seconds y))
       (leaderboard fromisoformat students quiz col)
   \<and> map rank (leaderboard fromisoformat students quiz col)
       = map (\<lambda>i. int i + 1) [0..<length (leaderboard fromisoformat students quiz col)]
   \<and> map (\<lambda>e. (university_number e, lb_score e, time_taken_seconds e, rank e))
        (leaderboard demo_fromisoformat demo_students ''quiz1''
           [attempt_A, open_attempt, attempt_B, attempt_C])
       = [(''s3'', 9, 300, 1), (''s2'', 8, 90, 2), (''s1'', 8, 120, 3)]"
proof (intro conjI)
  show "mset (map lb_row.truncate (leaderboard fromisoformat students quiz col))
     = mset (map (row_of fromisoformat students) (filter (terminal_of quiz) col))"
    by (simp add: leaderboard_rows)
  show "sorted_wrt (\<lambda>x y. lb_score x > lb_score y
                  \<or> (lb_score x = lb_score y \<and> time_taken_seconds x \<le> time_taken_seconds y))
       (leaderboard fromisoformat students quiz col)"
    by (rule leaderboard_sorted)
  show "map rank (leaderboard fromisoformat students quiz col)
       = map (\<lambda>i. int i + 1) [0..<length (leaderboard fromisoformat students quiz col)]"
    by (rule leaderboard_ranks)
  show "map (\<lambda>e. (university_number e, lb_score e, time_taken_seconds e, rank e))
        (leaderboard demo_fromisoformat demo_students ''quiz1''
           [attempt_A, open_attempt, attempt_B, attempt_C])
       = [(''s3'', 9, 300, 1), (''s2'', 8, 90, 2), (''s1'', 8, 120, 3)]"
    by (simp add: leaderboard_ABC)
qed
text \<open>
  \<^verbatim>\<open>timedelta.seconds\<close> leaves the days out: an attempt submitted one day and ten seconds
  after its start has an elapsed time of 10.
\<close>

lemma elapsed_drops_whole_days:
  "elapsed demo_fromisoformat
     (finished ''s1'' 8 ''PASSED'' ''2024-01-02T10:00:10'') = Some 10"
  by (simp add: elapsed_def demo_fromisoformat_def seconds_def)

lemma leaderboard_row_set:
  "set (map lb_row.truncate (leaderboard f st quiz col))
     = row_of f st ` {a \<in> set col. terminal_of quiz a}"
  by (simp add: leaderboard_rows)

lemma time_taken_of_elapsed:
  "time_taken_seconds (row_of f st a) = (case elapsed f a of Some t \<Rightarrow> t | None \<Rightarrow> 99999)"
  by (simp add: row_of_def Let_def)

text \<open>
  Claim C9 as stated fails: both timestamps of this finished attempt parse and lie ten
  seconds apart, but one carries a UTC offset and the other does not, the subtraction
  raises, and the leaderboard shows 99999.
\<close>

theorem time_taken_offset_counterexample:
  "terminal_of ''quiz1'' offset_attempt
   \<and> submitted_at offset_attempt = Some ''2024-01-01T10:00:10''
   \<and> started_at offset_attempt = Some ''2024-01-01T10:00:00+00:00''
   \<and> demo_fromisoformat ''2024-01-01T10:00:10'' = Some (Naive 1704103210000000)
   \<and> demo_fromisoformat ''2024-01-01T10:00:00+00:00'' = Some (Aware 1704103200000000)
   \<and> (1704103210000000 - 1704103200000000) div 1000000 = (10 :: int)
   \<and> map time_taken_seconds
        (leaderboard demo_fromisoformat demo_students ''quiz1'' [offset_attempt]) = [99999]"
  by (simp add: offset_attempt_def terminal_of_def is_terminal_def demo_fromisoformat_def
      leaderboard_def Let_def row_of_def elapsed_def add_rank_def)

text \<open>
  Claim C9, amended. The rows of a leaderboard are the rows of the finished attempts of the
  quiz, and the row of an attempt has the time 99999 when a timestamp is missing or does
  not parse, or when both parse and cannot be subtracted; when both parse and their
  difference is at least 0 and less than one day, the time is that difference in whole
  seconds. The computation has no failing outcome.
\<close>

theorem time_taken_seconds_or_sentinel:
  "set (map lb_row.truncate (leaderboard fromisoformat students quiz col))
     = row_of fromisoformat students ` {a \<in> set col. terminal_of quiz a}
   \<and> (submitted_at a = None \<or> started_at a = None
        \<or> (\<exists>s. submitted_at a = Some s \<and> fromisoformat s = None)
        \<or> (\<exists>t. started_at a = Some t \<and> fromisoformat t = None)
       \<longrightarrow> time_taken_seconds (row_of fromisoformat students a) = 99999)
   \<and> (submitted_at a = Some s \<and> started_at a = Some t
        \<and> fromisoformat s = Some ds \<and> fromisoformat t = Some dt
       \<longrightarrow> (datetime_sub ds dt = None
              \<longrightarrow> time_taken_seconds (row_of fromisoformat students a) = 99999)
         \<and> (datetime_sub ds dt = Some d \<and> 0 \<le> d \<and> d < 86400000000
              \<longrightarrow> time_taken_seconds (row_of fromisoformat students a) = d div 1000000))"
proof (intro conjI impI)
  show "set (map lb_row.truncate (leaderboard fromisoformat students quiz col))
     = row_of fromisoformat students ` {a \<in> set col. terminal_of quiz a}"
    by (rule leaderboard_row_set)
next
  assume "submitted_at a = None \<or> started_at a = None
        \<or> (\<exists>s. submitted_at a = Some s \<and> fromisoformat s = None)
        \<or> (\<exists>t. started_at a = Some t \<and> fromisoformat t = None)"
  then have "elapsed fromisoformat a = None"
    by (auto simp: elapsed_def split: option.splits)
  then show "time_taken_seconds (row_of fromisoformat students a) = 99999"
    by (simp add: time_taken_of_elapsed)
next
  assume p: "submitted_at a = Some s \<and> started_at a = Some t
        \<and> fromisoformat s = Some ds \<and> fromisoformat t = Some dt"
    and m: "datetime_sub ds dt = None"
  then have "elapsed fromisoformat a = None" by (simp add: elapsed_def)
  then show "time_taken_seconds (row_of fromisoformat students a) = 99999"
    by (simp add: time_taken_of_elapsed)
next
  assume p: "submitted_at a = Some s \<and> started_at a = Some t
        \<and> fromisoformat s = Some ds \<and> fromisoformat t = Some dt"
    and d: "datetime_sub ds dt = Some d \<and> 0 \<le> d \<and> d < 86400000000"
  then have "elapsed fromisoformat a = Some (seconds d)" by (simp add: elapsed_def)
  moreover from d have "seconds d = d div 1000000" by (simp add: seconds_def)
  ultimately show "time_taken_seconds (row_of fromisoformat students a) = d div 1000000"
    by (simp add: time_taken_of_elapsed)
qed

text \<open>The witness: attempt A, submitted 120 seconds after its start.\<close>

theorem time_taken_seconds_or_sentinel_witness:
  "submitted_at attempt_A = Some ''2024-01-01T10:02:00''
   \<and> started_at attempt_A = Some ''2024-01-01T10:00:00''
   \<and> demo_fromisoformat ''2024-01-01T10:02:00'' = Some (Naive 1704103320000000)
   \<and> demo_fromisoformat ''2024-01-01T10:00:00'' = Some (Naive 1704103200000000)
   \<and> datetime_sub (Naive 1704103320000000) (Naive 1704103200000000) = Some 120000000
   \<and> time_taken_seconds (row_of demo_fromisoformat demo_students attempt_A) = 120"
proof -
  have p: "submitted_at attempt_A = Some ''2024-01-01T10:02:00''
        \<and> started_at attempt_A = Some ''2024-01-01T10:00:00''
        \<and> demo_fromisoformat ''2024-01-01T10:02:00'' = Some (Naive 1704103320000000)
        \<and> demo_fromisoformat ''2024-01-01T10:00:00'' = Some (Naive 1704103200000000)"
    by (simp add: attempt_A_def demo_fromisoformat_def)
  have d: "datetime_sub (Naive 1704103320000000) (Naive 1704103200000000) = Some 120000000
        \<and> (0::int) \<le> 120000000 \<and> (120000000::int) < 86400000000"
    by simp
  from time_taken_seconds_or_sentinel [of demo_fromisoformat demo_students _ _ attempt_A
      "''2024-01-01T10:02:00''" "''2024-01-01T10:00:00''" "Naive 1704103320000000"
      "Naive 1704103200000000" 120000000] p d
  have "time_taken_seconds (row_of demo_fromisoformat demo_students attempt_A)
      = 120000000 div 1000000"
    by blast
  with p d show ?thesis by simp
qed

section \<open>One attempt for each pair\<close>

text \<open>
  The requests keep the collection at one attempt for each pair, so every collection they
  build from the empty one satisfies the hypothesis of the statement on resubmission.
\<close>

lemma unique_keys_update:
  assumes "i < length col" and "col ! i = a"
    and "student_university_number b = student_university_number a"
    and "quiz_id b = quiz_id a"
  shows "unique_keys (col[i := b]) \<longleftrightarrow> unique_keys col"
proof -
  let ?k = "\<lambda>a. (student_university_number a, quiz_id a)"
  from assms have "(map ?k col)[i := ?k b] = map ?k col"
    by (simp add: list_update_same_conv)
  then show ?thesis by (simp add: unique_keys_def map_update)
qed

lemma unique_keys_append:
  assumes "find_one (by_key u quiz) col = None" and "by_key u quiz b" and "unique_keys col"
  shows "unique_keys (col @ [b])"
  using assms by (auto simp: unique_keys_def find_one_None_iff by_key_def)

lemma unique_keys_report_violation:
  assumes "unique_keys col"
  shows "unique_keys (snd (report_violation now quiz u violation_type col))"
proof (cases "find_one (by_key u quiz) col")
  case None
  with assms show ?thesis
    by (cases "violation_type = ''__init__''")
      (simp_all add: report_violation_init report_violation_inactive unique_keys_append by_key_def)
next
  case (Some ia)
  obtain i a where "ia = (i, a)" by (cases ia)
  with Some have fo: "find_one (by_key u quiz) col = Some (i, a)" by simp
  from find_one_SomeD [OF fo] have i: "i < length col" "col ! i = a" by simp_all
  show ?thesis
  proof (cases "violation_type = ''__init__''")
    case True
    with fo assms show ?thesis by (simp add: report_violation_init)
  next
    case init: False
    show ?thesis
    proof (cases "status a = Some ''IN_PROGRESS'' \<or> status a = None")
      case True
      from report_violation_active [OF init fo True, of now] assms i show ?thesis
        by (auto simp: unique_keys_update split: if_splits)
    next
      case False
      with init fo assms show ?thesis by (simp add: report_violation_inactive)
    qed
  qed
qed

lemma unique_keys_submit_quiz:
  assumes "unique_keys col"
  shows "unique_keys (snd (submit_quiz f now qs quiz u p col))"
proof (cases "find_one (by_key u quiz) col")
  case None
  with assms show ?thesis
    by (simp add: submit_quiz_def Let_def unique_keys_append by_key_def)
next
  case (Some ia)
  obtain i a where "ia = (i, a)" by (cases ia)
  with Some have fo: "find_one (by_key u quiz) col = Some (i, a)" by simp
  from find_one_SomeD [OF fo] have i: "i < length col" "col ! i = a" "by_key u quiz a"
    by simp_all
  show ?thesis
  proof (cases "is_terminal a")
    case True
    with fo assms show ?thesis by (simp add: submit_quiz_rejected)
  next
    case False
    with fo i assms show ?thesis
      by (simp add: submit_quiz_def Let_def unique_keys_update by_key_def)
  qed
qed

lemma unique_keys_run:
  "unique_keys col \<Longrightarrow> unique_keys (run f qs reqs col)"
proof (induction reqs arbitrary: col)
  case Nil
  then show ?case by (simp add: run_def)
next
  case (Cons req reqs)
  have "unique_keys (apply_request f qs col req)"
    using Cons.prems
    by (cases req) (simp_all add: unique_keys_report_violation unique_keys_submit_quiz)
  from Cons.IH [OF this] show ?case by (simp add: run_def)
qed

lemma unique_keys_from_empty: "unique_keys (run f qs reqs [])"
  by (rule unique_keys_run) (simp add: unique_keys_def)

end
